theory Spec2Isabelle
  imports Main "HOL-Library.Word"
begin

section \<open>Data model of cmd/poseidon/poseidon.go\<close>

text \<open>
  The scheduling bridge reads two package-level maps of \<open>k8sclient\<close>,
  \<open>TaskIDToPod\<close> (uint64 to pod identifier) and \<open>ResIDToNode\<close> (string to node name),
  and calls two collaborators, \<open>k8sclient.BindPodToNode\<close> and \<open>k8sclient.DeletePod\<close>.
  The collaborators live outside the modelled file; a call to one is recorded, with its
  arguments, at the end of a trace.
\<close>

record PodIdentifier =
  Name :: string
  Namespace :: string

type_synonym ChangeType = "32 word"

record SchedulingDelta =
  Type :: ChangeType
  TaskId :: "64 word"
  ResourceId :: string

text \<open>
  Modelled from the spec: the constants \<open>firmament.SchedulingDelta_PLACE\<close>,
  \<open>_PREEMPT\<close>, \<open>_MIGRATE\<close> and \<open>_NOOP\<close> are declared in \<open>pkg/firmament\<close>, which is not
  among the sources. The spec gives the enumeration as PLACE=0, PREEMPT=1, MIGRATE=2,
  NOOP=3; the kind travels as a 32-bit integer, so other values can arrive.
\<close>

definition SchedulingDelta_PLACE :: ChangeType where
  "SchedulingDelta_PLACE = 0"

definition SchedulingDelta_PREEMPT :: ChangeType where
  "SchedulingDelta_PREEMPT = 1"

definition SchedulingDelta_MIGRATE :: ChangeType where
  "SchedulingDelta_MIGRATE = 2"

definition SchedulingDelta_NOOP :: ChangeType where
  "SchedulingDelta_NOOP = 3"

datatype call =
  BindPodToNode string string string
  | DeletePod string string

text \<open>
  Every \<open>glog.Fatalf\<close> of the file, one constructor per format string, holding the
  arguments of the format. \<open>glog.Fatalf\<close> writes the message and ends the process.
\<close>

text \<open>
  The errors \<open>wait.PollImmediate\<close> can return: the timeout, an error of the condition,
  and the refusal of a zero interval.
\<close>

datatype poll_error = ErrWaitTimeout | ConditionError string | ZeroInterval

datatype fatal =
  PlacedWithoutPod "64 word"
  | PlacedWithoutNode "64 word" string
  | PreemptedWithoutPod "64 word"
  | UnexpectedType ChangeType
  | TimedOutWaiting poll_error

record world =
  TaskIDToPod :: "64 word \<rightharpoonup> PodIdentifier"
  ResIDToNode :: "string \<rightharpoonup> string"
  calls :: "call list"

text \<open>
  The outcome of a piece of \<open>schedule\<close>: \<open>Inr w\<close> when control goes on with world \<open>w\<close>,
  \<open>Inl (f, w)\<close> when \<open>glog.Fatalf\<close> ended the process with message \<open>f\<close> in world \<open>w\<close>.
\<close>

type_synonym outcome = "(fatal \<times> world) + world"

definition record_call :: "call \<Rightarrow> world \<Rightarrow> world" where
  "record_call c w = w\<lparr>calls := calls w @ [c]\<rparr>"

section \<open>The body of the switch in schedule\<close>

definition place :: "world \<Rightarrow> SchedulingDelta \<Rightarrow> outcome" where
  "place w delta =
     (case TaskIDToPod w (TaskId delta) of
        None \<Rightarrow> Inl (PlacedWithoutPod (TaskId delta), w)
      | Some podIdentifier \<Rightarrow>
          (case ResIDToNode w (ResourceId delta) of
             None \<Rightarrow> Inl (PlacedWithoutNode (TaskId delta) (ResourceId delta), w)
           | Some nodeName \<Rightarrow>
               Inr (record_call
                      (BindPodToNode (Name podIdentifier) (Namespace podIdentifier) nodeName) w)))"

definition preempt_or_migrate :: "world \<Rightarrow> SchedulingDelta \<Rightarrow> outcome" where
  "preempt_or_migrate w delta =
     (case TaskIDToPod w (TaskId delta) of
        None \<Rightarrow> Inl (PreemptedWithoutPod (TaskId delta), w)
      | Some podIdentifier \<Rightarrow>
          Inr (record_call (DeletePod (Name podIdentifier) (Namespace podIdentifier)) w))"

definition schedule_delta :: "world \<Rightarrow> SchedulingDelta \<Rightarrow> outcome" where
  "schedule_delta w delta =
     (if Type delta = SchedulingDelta_PLACE then place w delta
      else if Type delta = SchedulingDelta_PREEMPT \<or> Type delta = SchedulingDelta_MIGRATE
        then preempt_or_migrate w delta
      else if Type delta = SchedulingDelta_NOOP then Inr w
      else Inl (UnexpectedType (Type delta), w))"

text \<open>
  The loop \<open>for _, delta := range deltas.GetDeltas()\<close>: the deltas one after the other, in
  the order of the slice; a fatal message ends the process, so the deltas behind it are
  never looked at.
\<close>

fun schedule_deltas :: "world \<Rightarrow> SchedulingDelta list \<Rightarrow> outcome" where
  "schedule_deltas w [] = Inr w"
| "schedule_deltas w (delta # deltas) =
     (case schedule_delta w delta of
        Inl stop \<Rightarrow> Inl stop
      | Inr w' \<Rightarrow> schedule_deltas w' deltas)"

text \<open>
  The outer loop \<open>for { deltas := firmament.Schedule(fc); ...; time.Sleep(...) }\<close> never
  returns. Its first iterations are modelled by the list of the batches the engine
  returned to them: each batch is applied in full before the next one is asked for,
  and a fatal message ends the process and with it the loop.
\<close>

fun schedule :: "world \<Rightarrow> SchedulingDelta list list \<Rightarrow> outcome" where
  "schedule w [] = Inr w"
| "schedule w (deltas # batches) =
     (case schedule_deltas w deltas of
        Inl stop \<Rightarrow> Inl stop
      | Inr w' \<Rightarrow> schedule w' batches)"

definition world_of :: "outcome \<Rightarrow> world" where
  "world_of r = (case r of Inl (f, w) \<Rightarrow> w | Inr w \<Rightarrow> w)"

definition new_calls :: "world \<Rightarrow> outcome \<Rightarrow> call list" where
  "new_calls w r = drop (length (calls w)) (calls (world_of r))"

text \<open>
  What the spec expects of one delta, written from its words (section 4.3): the calls a
  delta stands for, or \<open>None\<close> when the delta cannot be applied (a pairing is missing,
  or the kind is not one of the four).
\<close>

definition spec_action :: "world \<Rightarrow> SchedulingDelta \<Rightarrow> call list option" where
  "spec_action w delta =
     (if Type delta = SchedulingDelta_PLACE then
        (case (TaskIDToPod w (TaskId delta), ResIDToNode w (ResourceId delta)) of
           (Some workload, Some host) \<Rightarrow>
             Some [BindPodToNode (Name workload) (Namespace workload) host]
         | _ \<Rightarrow> None)
      else if Type delta = SchedulingDelta_PREEMPT \<or> Type delta = SchedulingDelta_MIGRATE then
        (case TaskIDToPod w (TaskId delta) of
           Some workload \<Rightarrow> Some [DeletePod (Name workload) (Namespace workload)]
         | None \<Rightarrow> None)
      else if Type delta = SchedulingDelta_NOOP then Some []
      else None)"

definition spec_calls :: "world \<Rightarrow> SchedulingDelta \<Rightarrow> call list" where
  "spec_calls w delta = (case spec_action w delta of Some cs \<Rightarrow> cs | None \<Rightarrow> [])"

definition applicable :: "world \<Rightarrow> SchedulingDelta \<Rightarrow> bool" where
  "applicable w delta = (case spec_action w delta of Some cs \<Rightarrow> True | None \<Rightarrow> False)"

section \<open>WaitForFirmamentService\<close>

text \<open>
  Durations are counted in nanoseconds, as \<open>time.Duration\<close> does. The health probe
  \<open>firmament.Check\<close> is an RPC: its answers are a parameter, \<open>probe n\<close> being the pair
  (ok, err) that invocation number \<open>n\<close> returns.
\<close>

definition Second :: nat where
  "Second = 1000000000"

definition Minute :: nat where
  "Minute = 60 * Second"

type_synonym probe = "nat \<Rightarrow> bool \<times> string option"

text \<open>
  The closure handed to \<open>wait.PollImmediate\<close>: \<open>ok, _ := firmament.Check(fc, serviceReq)\<close>,
  then \<open>false, nil\<close> when \<open>ok\<close> is false and \<open>true, nil\<close> otherwise.
\<close>

definition condition :: "probe \<Rightarrow> probe" where
  "condition check n = (let ok = fst (check n) in if \<not> ok then (False, None) else (True, None))"

text \<open>
  Modelled from the spec: \<open>wait.PollImmediate\<close> belongs to \<open>k8s.io/apimachinery\<close>, which is
  not among the sources. The spec (section 4.1) has the gate invoke the probe repeatedly
  at a fixed poll interval until it returns true or the cumulative elapsed time exceeds
  the timeout, returning success as soon as a probe succeeds, with no wait before the
  first probe. The result is the error (if any), the time waited and the number of
  invocations of the condition. An error of the condition ends the polling at once.
  An interval of zero would never let the elapsed time grow; it is refused.
\<close>

function poll_from ::
  "nat \<Rightarrow> nat \<Rightarrow> probe \<Rightarrow> nat \<Rightarrow> nat \<Rightarrow> poll_error option \<times> nat \<times> nat" where
  "poll_from interval timeout cond n waited =
     (case snd (cond n) of
        Some e \<Rightarrow> (Some (ConditionError e), waited, Suc n)
      | None \<Rightarrow>
          if fst (cond n) then (None, waited, Suc n)
          else if interval = 0 then (Some ZeroInterval, waited, Suc n)
          else if timeout < waited + interval then (Some ErrWaitTimeout, waited + interval, Suc n)
          else poll_from interval timeout cond (Suc n) (waited + interval))"
  by pat_completeness auto
termination
  by (relation "measure (\<lambda>(interval, timeout, cond, n, waited). Suc timeout - waited)") auto

declare poll_from.simps [simp del]

definition PollImmediate :: "nat \<Rightarrow> nat \<Rightarrow> probe \<Rightarrow> poll_error option \<times> nat \<times> nat" where
  "PollImmediate interval timeout cond = poll_from interval timeout cond 0 0"

text \<open>
  \<open>WaitForFirmamentService\<close>: \<open>Inr (waited, invocations)\<close> when it returns,
  \<open>Inl (TimedOutWaiting err, waited, invocations)\<close> when \<open>glog.Fatalf\<close> ends the
  process because the polling returned the error \<open>err\<close>.
\<close>

type_synonym gate_outcome = "(fatal \<times> nat \<times> nat) + (nat \<times> nat)"

definition gate_result :: "poll_error option \<times> nat \<times> nat \<Rightarrow> gate_outcome" where
  "gate_result r =
     (case fst r of None \<Rightarrow> Inr (snd r) | Some err \<Rightarrow> Inl (TimedOutWaiting err, snd r))"

definition WaitForFirmamentService :: "probe \<Rightarrow> gate_outcome" where
  "WaitForFirmamentService check =
     gate_result (PollImmediate (2 * Second) (10 * Minute) (condition check))"

text \<open>
  The gate as the spec words it, \<open>WaitUntilReady(timeout, pollInterval)\<close>, with both
  durations as parameters.
\<close>

definition WaitUntilReady :: "nat \<Rightarrow> nat \<Rightarrow> probe \<Rightarrow> gate_outcome" where
  "WaitUntilReady timeout pollInterval check =
     gate_result (PollImmediate pollInterval timeout (condition check))"

definition waited_of :: "gate_outcome \<Rightarrow> nat" where
  "waited_of r = (case r of Inl (f, waited, n) \<Rightarrow> waited | Inr (waited, n) \<Rightarrow> waited)"

definition never_ready :: probe where
  "never_ready n = (False, None)"

definition ready_at_once :: probe where
  "ready_at_once n = (True, None)"




section \<open>Example worlds and deltas\<close>

definition podA :: PodIdentifier where
  "podA = \<lparr>Name = ''podA'', Namespace = ''nsA''\<rparr>"

definition world5 :: world where
  "world5 = \<lparr>TaskIDToPod = [5 \<mapsto> podA], ResIDToNode = [''r1'' \<mapsto> ''nodeX''], calls = []\<rparr>"

definition world1 :: world where
  "world1 = \<lparr>TaskIDToPod = [1 \<mapsto> podA], ResIDToNode = [''r1'' \<mapsto> ''nodeX''], calls = []\<rparr>"

definition delta :: "ChangeType \<Rightarrow> 64 word \<Rightarrow> string \<Rightarrow> SchedulingDelta" where
  "delta k t r = \<lparr>Type = k, TaskId = t, ResourceId = r\<rparr>"

section \<open>Facts about the dispatch of one delta and of a batch\<close>

lemmas kinds = SchedulingDelta_PLACE_def SchedulingDelta_PREEMPT_def
  SchedulingDelta_MIGRATE_def SchedulingDelta_NOOP_def

lemma schedule_delta_registry:
  "TaskIDToPod (world_of (schedule_delta w d)) = TaskIDToPod w
   \<and> ResIDToNode (world_of (schedule_delta w d)) = ResIDToNode w"
  by (simp add: schedule_delta_def place_def preempt_or_migrate_def record_call_def
      world_of_def split: option.splits)

lemma schedule_delta_Inr_registry:
  assumes "schedule_delta w d = Inr w'"
  shows "TaskIDToPod w' = TaskIDToPod w \<and> ResIDToNode w' = ResIDToNode w"
  using schedule_delta_registry [of w d] assms by (simp add: world_of_def)

lemma schedule_delta_Inl_registry:
  assumes "schedule_delta w d = Inl (f, w')"
  shows "w' = w"
  using assms
  by (auto simp add: schedule_delta_def place_def preempt_or_migrate_def
      split: option.splits if_splits)

lemma spec_action_cong:
  assumes "TaskIDToPod w' = TaskIDToPod w" and "ResIDToNode w' = ResIDToNode w"
  shows "spec_action w' d = spec_action w d"
  using assms by (simp add: spec_action_def)

lemma schedule_delta_spec_Some:
  assumes "spec_action w d = Some cs"
  shows "schedule_delta w d = Inr (w\<lparr>calls := calls w @ cs\<rparr>)"
  using assms
  by (auto simp add: spec_action_def schedule_delta_def place_def preempt_or_migrate_def
      record_call_def split: option.splits if_splits)

lemma schedule_delta_spec_None:
  assumes "spec_action w d = None"
  shows "\<exists>f. schedule_delta w d = Inl (f, w)"
  using assms
  by (auto simp add: spec_action_def schedule_delta_def place_def preempt_or_migrate_def
      record_call_def split: option.splits if_splits)

lemma schedule_deltas_append:
  "schedule_deltas w (ds @ es) =
     (case schedule_deltas w ds of Inl stop \<Rightarrow> Inl stop | Inr w' \<Rightarrow> schedule_deltas w' es)"
  by (induction ds arbitrary: w) (auto split: sum.splits)

lemma schedule_deltas_calls:
  "calls (world_of (schedule_deltas w ds)) =
     calls w @ concat (map (spec_calls w) (takeWhile (applicable w) ds))"
proof (induction ds arbitrary: w)
  case Nil
  show ?case by (simp add: world_of_def)
next
  case (Cons d ds)
  show ?case
  proof (cases "spec_action w d")
    case None
    then obtain f where "schedule_delta w d = Inl (f, w)"
      using schedule_delta_spec_None by blast
    with None show ?thesis by (simp add: world_of_def applicable_def)
  next
    case (Some cs)
    let ?w' = "w\<lparr>calls := calls w @ cs\<rparr>"
    have step: "schedule_delta w d = Inr ?w'" using Some by (rule schedule_delta_spec_Some)
    have same: "\<And>x. spec_action ?w' x = spec_action w x"
      by (rule spec_action_cong) simp_all
    have "spec_calls ?w' = spec_calls w" "applicable ?w' = applicable w"
      by (auto simp add: spec_calls_def applicable_def same fun_eq_iff)
    with Cons.IH [of ?w'] step Some show ?thesis
      by (simp add: spec_calls_def applicable_def)
  qed
qed


lemma schedule_deltas_registry:
  "TaskIDToPod (world_of (schedule_deltas w ds)) = TaskIDToPod w
   \<and> ResIDToNode (world_of (schedule_deltas w ds)) = ResIDToNode w"
proof (induction ds arbitrary: w)
  case Nil
  show ?case by (simp add: world_of_def)
next
  case (Cons d ds)
  show ?case
  proof (cases "schedule_delta w d")
    case (Inl stop)
    obtain f v where "stop = (f, v)" by (cases stop)
    with Inl have "v = w" using schedule_delta_Inl_registry by blast
    with Inl \<open>stop = (f, v)\<close> show ?thesis by (simp add: world_of_def)
  next
    case (Inr w')
    with Cons.IH [of w'] schedule_delta_Inr_registry [OF Inr] show ?thesis by simp
  qed
qed

lemma schedule_registry:
  "TaskIDToPod (world_of (schedule w batches)) = TaskIDToPod w
   \<and> ResIDToNode (world_of (schedule w batches)) = ResIDToNode w"
proof (induction batches arbitrary: w)
  case Nil
  show ?case by (simp add: world_of_def)
next
  case (Cons deltas batches)
  show ?case
  proof (cases "schedule_deltas w deltas")
    case (Inl stop)
    with schedule_deltas_registry [of w deltas] show ?thesis by simp
  next
    case (Inr w')
    with Cons.IH [of w'] schedule_deltas_registry [of w deltas] show ?thesis
      by (simp add: world_of_def)
  qed
qed

section \<open>Placing a registered task\<close>

text \<open>
  C2. With task 5 paired with pod (podA, nsA) and resource r1 paired with node nodeX,
  the delta PLACE, 5, r1 makes one call, BindPodToNode podA nsA nodeX, and no
  DeletePod call; the process goes on.
\<close>

theorem place_registered_binds_once:
  assumes "TaskIDToPod w 5 = Some \<lparr>Name = ''podA'', Namespace = ''nsA''\<rparr>"
    and "ResIDToNode w ''r1'' = Some ''nodeX''"
  shows "schedule_delta w \<lparr>Type = SchedulingDelta_PLACE, TaskId = 5, ResourceId = ''r1''\<rparr>
           = Inr (w\<lparr>calls := calls w @ [BindPodToNode ''podA'' ''nsA'' ''nodeX'']\<rparr>)
         \<and> new_calls w (schedule_delta w
               \<lparr>Type = SchedulingDelta_PLACE, TaskId = 5, ResourceId = ''r1''\<rparr>)
             = [BindPodToNode ''podA'' ''nsA'' ''nodeX'']"
  using assms
  by (simp add: schedule_delta_def place_def record_call_def new_calls_def world_of_def)

theorem place_registered_binds_once_witness:
  "TaskIDToPod world5 5 = Some \<lparr>Name = ''podA'', Namespace = ''nsA''\<rparr>
   \<and> ResIDToNode world5 ''r1'' = Some ''nodeX''
   \<and> schedule_delta world5 \<lparr>Type = SchedulingDelta_PLACE, TaskId = 5, ResourceId = ''r1''\<rparr>
       = Inr (world5\<lparr>calls := [BindPodToNode ''podA'' ''nsA'' ''nodeX'']\<rparr>)"
proof -
  have h1: "TaskIDToPod world5 5 = Some \<lparr>Name = ''podA'', Namespace = ''nsA''\<rparr>"
    by (simp add: world5_def podA_def)
  have h2: "ResIDToNode world5 ''r1'' = Some ''nodeX''"
    by (simp add: world5_def)
  have "calls world5 = []" by (simp add: world5_def)
  then show ?thesis using h1 h2 place_registered_binds_once [OF h1 h2] by simp
qed

section \<open>Placing a task with a missing pairing\<close>

text \<open>
  C1, as the claim states it, asks that a PLACE delta with a missing pairing hand an
  error value back to the caller instead of ending the process. The code calls
  \<open>glog.Fatalf\<close>: with task 99 unpaired the outcome is the end of the process
  (\<open>Inl\<close>), with the message "Placed task 99 without pod pairing".
\<close>

theorem place_unpaired_is_fatal_counterexample:
  "schedule_delta world5 (delta SchedulingDelta_PLACE 99 ''r1'')
     = Inl (PlacedWithoutPod 99, world5)
   \<and> isl (schedule_delta world5 (delta SchedulingDelta_PLACE 99 ''r1''))
   \<and> TaskIDToPod world5 99 = None"
  by (simp add: schedule_delta_def place_def delta_def world5_def)

text \<open>
  C1, amended. For every PLACE delta whose task has no pod pairing, or whose resource has
  no node pairing, the dispatch ends the process with a fatal message (the pod pairing
  is looked up first) and makes no collaborator call, neither BindPodToNode nor DeletePod.
\<close>

theorem place_unpaired_is_fatal:
  assumes "Type d = SchedulingDelta_PLACE"
    and "TaskIDToPod w (TaskId d) = None \<or> ResIDToNode w (ResourceId d) = None"
  shows "schedule_delta w d =
           Inl (if TaskIDToPod w (TaskId d) = None then PlacedWithoutPod (TaskId d)
                else PlacedWithoutNode (TaskId d) (ResourceId d), w)
         \<and> new_calls w (schedule_delta w d) = []"
  using assms
  by (auto simp add: schedule_delta_def place_def new_calls_def world_of_def
      split: option.splits)

theorem place_unpaired_is_fatal_witness:
  "Type (delta SchedulingDelta_PLACE 5 ''r9'') = SchedulingDelta_PLACE
   \<and> (TaskIDToPod world5 (TaskId (delta SchedulingDelta_PLACE 5 ''r9'')) = None
      \<or> ResIDToNode world5 (ResourceId (delta SchedulingDelta_PLACE 5 ''r9'')) = None)
   \<and> schedule_delta world5 (delta SchedulingDelta_PLACE 5 ''r9'')
       = Inl (PlacedWithoutNode 5 ''r9'', world5)
   \<and> new_calls world5 (schedule_delta world5 (delta SchedulingDelta_PLACE 5 ''r9'')) = []"
proof -
  let ?d = "delta SchedulingDelta_PLACE 5 ''r9''"
  have h1: "Type ?d = SchedulingDelta_PLACE" by (simp add: delta_def)
  have h2: "TaskIDToPod world5 (TaskId ?d) = None \<or> ResIDToNode world5 (ResourceId ?d) = None"
    by (simp add: delta_def world5_def)
  have ne: "TaskIDToPod world5 (TaskId ?d) \<noteq> None" by (simp add: delta_def world5_def)
  note res = place_unpaired_is_fatal [OF h1 h2]
  from conjunct1 [OF res] ne have a: "schedule_delta world5 ?d
      = Inl (PlacedWithoutNode (TaskId ?d) (ResourceId ?d), world5)" by simp
  have b: "new_calls world5 (schedule_delta world5 ?d) = []" by (rule conjunct2 [OF res])
  have c: "PlacedWithoutNode (TaskId ?d) (ResourceId ?d) = PlacedWithoutNode 5 ''r9''"
    by (simp add: delta_def)
  show ?thesis using h1 h2 a b c by simp
qed

section \<open>A delta of an unknown kind\<close>

text \<open>
  C3, as the claim states it, asks that a delta of an unknown kind be skipped and the
  rest of the batch applied. With kind 7 in front of a PLACE delta that would bind
  podA, the process ends at the first delta and the bind is never made.
\<close>

theorem unknown_kind_ends_batch_counterexample:
  "(7::ChangeType) \<notin> {SchedulingDelta_PLACE, SchedulingDelta_PREEMPT,
                         SchedulingDelta_MIGRATE, SchedulingDelta_NOOP}
   \<and> schedule_deltas world5 [delta 7 5 ''r1'', delta SchedulingDelta_PLACE 5 ''r1'']
       = Inl (UnexpectedType 7, world5)
   \<and> schedule_deltas world5 [delta SchedulingDelta_PLACE 5 ''r1'']
       = Inr (world5\<lparr>calls := [BindPodToNode ''podA'' ''nsA'' ''nodeX'']\<rparr>)"
  by (simp add: kinds schedule_delta_def place_def delta_def world5_def podA_def
      record_call_def)

text \<open>
  C3, amended. For every delta whose kind is none of PLACE, PREEMPT, MIGRATE and NOOP, the
  dispatch ends the process with the fatal message "Unexpected SchedulingDelta type":
  in a batch the deltas in front of it are applied, the delta itself makes no call,
  and no delta behind it is applied.
\<close>

theorem unknown_kind_ends_batch:
  assumes "Type d \<notin> {SchedulingDelta_PLACE, SchedulingDelta_PREEMPT,
                        SchedulingDelta_MIGRATE, SchedulingDelta_NOOP}"
  shows "schedule_delta w d = Inl (UnexpectedType (Type d), w)
         \<and> schedule_deltas w (before @ d # rest) =
             (case schedule_deltas w before of
                Inl stop \<Rightarrow> Inl stop
              | Inr w' \<Rightarrow> Inl (UnexpectedType (Type d), w'))"
proof -
  have one: "\<And>v. schedule_delta v d = Inl (UnexpectedType (Type d), v)"
    using assms by (simp add: schedule_delta_def)
  then show ?thesis by (simp add: schedule_deltas_append split: sum.splits)
qed

theorem unknown_kind_ends_batch_witness:
  "Type (delta 7 5 ''r1'') \<notin> {SchedulingDelta_PLACE, SchedulingDelta_PREEMPT,
                                   SchedulingDelta_MIGRATE, SchedulingDelta_NOOP}
   \<and> schedule_deltas world5
        ([delta SchedulingDelta_PREEMPT 5 ''r1''] @ delta 7 5 ''r1''
           # [delta SchedulingDelta_PLACE 5 ''r1''])
       = Inl (UnexpectedType 7, world5\<lparr>calls := [DeletePod ''podA'' ''nsA'']\<rparr>)"
proof -
  have h: "Type (delta 7 5 ''r1'') \<notin> {SchedulingDelta_PLACE, SchedulingDelta_PREEMPT,
                                          SchedulingDelta_MIGRATE, SchedulingDelta_NOOP}"
    by (simp add: delta_def kinds)
  have pre: "schedule_deltas world5 [delta SchedulingDelta_PREEMPT 5 ''r1'']
               = Inr (world5\<lparr>calls := [DeletePod ''podA'' ''nsA'']\<rparr>)"
    by (simp add: kinds schedule_delta_def preempt_or_migrate_def delta_def world5_def
        podA_def record_call_def)
  show ?thesis
    using h pre
      unknown_kind_ends_batch [OF h, of world5 "[delta SchedulingDelta_PREEMPT 5 ''r1'']"
        "[delta SchedulingDelta_PLACE 5 ''r1'']"]
    by (simp add: delta_def)
qed

section \<open>A batch is applied in the order of the slice\<close>

text \<open>
  C4. The deltas of a batch are applied one after the other in the order the engine
  returned them: a batch \<open>ds @ es\<close> is the batch \<open>ds\<close> followed, from the world it
  leaves, by the batch \<open>es\<close>, and the calls a batch makes are the calls of its deltas,
  in order, up to the first delta that cannot be applied. With task 1 paired with a
  pod and resource r1 paired with a node, the batch PLACE 1 r1, MIGRATE 1, NOOP makes
  exactly the calls BindPodToNode, then DeletePod.
\<close>

theorem batch_applied_in_order:
  assumes "TaskIDToPod w 1 = Some p" and "ResIDToNode w ''r1'' = Some n"
  shows "schedule_deltas w [delta SchedulingDelta_PLACE 1 ''r1'',
                            delta SchedulingDelta_MIGRATE 1 r,
                            delta SchedulingDelta_NOOP t r']
           = Inr (w\<lparr>calls := calls w @ [BindPodToNode (Name p) (Namespace p) n,
                                        DeletePod (Name p) (Namespace p)]\<rparr>)
         \<and> schedule_deltas v (ds @ es) =
             (case schedule_deltas v ds of
                Inl stop \<Rightarrow> Inl stop
              | Inr v' \<Rightarrow> schedule_deltas v' es)
         \<and> new_calls v (schedule_deltas v ds) =
             concat (map (spec_calls v) (takeWhile (applicable v) ds))"
proof -
  have "schedule_deltas w [delta SchedulingDelta_PLACE 1 ''r1'',
                           delta SchedulingDelta_MIGRATE 1 r,
                           delta SchedulingDelta_NOOP t r']
           = Inr (w\<lparr>calls := calls w @ [BindPodToNode (Name p) (Namespace p) n,
                                        DeletePod (Name p) (Namespace p)]\<rparr>)"
    using assms
    by (simp add: kinds schedule_delta_def place_def preempt_or_migrate_def delta_def
        record_call_def)
  moreover have "new_calls v (schedule_deltas v ds) =
             concat (map (spec_calls v) (takeWhile (applicable v) ds))"
    by (simp add: new_calls_def schedule_deltas_calls)
  ultimately show ?thesis by (simp add: schedule_deltas_append)
qed

theorem batch_applied_in_order_witness:
  "TaskIDToPod world1 1 = Some podA \<and> ResIDToNode world1 ''r1'' = Some ''nodeX''
   \<and> schedule_deltas world1 [delta SchedulingDelta_PLACE 1 ''r1'',
                            delta SchedulingDelta_MIGRATE 1 ''r2'',
                            delta SchedulingDelta_NOOP 0 '''']
       = Inr (world1\<lparr>calls := [BindPodToNode ''podA'' ''nsA'' ''nodeX'',
                                DeletePod ''podA'' ''nsA'']\<rparr>)"
proof -
  have h1: "TaskIDToPod world1 1 = Some podA" by (simp add: world1_def)
  have h2: "ResIDToNode world1 ''r1'' = Some ''nodeX''" by (simp add: world1_def)
  have c: "calls world1 = []" by (simp add: world1_def)
  have nm: "Name podA = ''podA''" "Namespace podA = ''nsA''" by (simp_all add: podA_def)
  note res = conjunct1 [OF batch_applied_in_order [OF h1 h2, of "''r2''" 0 "''''"]]
  show ?thesis using h1 h2 res by (simp add: c nm)
qed

section \<open>Preempting or migrating a registered task\<close>

text \<open>
  C5. With task 5 paired with pod (podA, nsA), the delta PREEMPT, 5 makes one call,
  DeletePod podA nsA, and no BindPodToNode call; so does the delta MIGRATE, 5.
\<close>

theorem preempt_or_migrate_removes_once:
  assumes "TaskIDToPod w 5 = Some \<lparr>Name = ''podA'', Namespace = ''nsA''\<rparr>"
  shows "schedule_delta w (delta SchedulingDelta_PREEMPT 5 r)
           = Inr (w\<lparr>calls := calls w @ [DeletePod ''podA'' ''nsA'']\<rparr>)
         \<and> new_calls w (schedule_delta w (delta SchedulingDelta_PREEMPT 5 r))
             = [DeletePod ''podA'' ''nsA'']
         \<and> schedule_delta w (delta SchedulingDelta_MIGRATE 5 r)
             = Inr (w\<lparr>calls := calls w @ [DeletePod ''podA'' ''nsA'']\<rparr>)
         \<and> new_calls w (schedule_delta w (delta SchedulingDelta_MIGRATE 5 r))
             = [DeletePod ''podA'' ''nsA'']"
  using assms
  by (simp add: kinds schedule_delta_def preempt_or_migrate_def delta_def record_call_def
      new_calls_def world_of_def)

theorem preempt_or_migrate_removes_once_witness:
  "TaskIDToPod world5 5 = Some \<lparr>Name = ''podA'', Namespace = ''nsA''\<rparr>
   \<and> schedule_delta world5 (delta SchedulingDelta_PREEMPT 5 ''r1'')
       = Inr (world5\<lparr>calls := [DeletePod ''podA'' ''nsA'']\<rparr>)
   \<and> schedule_delta world5 (delta SchedulingDelta_MIGRATE 5 ''r1'')
       = Inr (world5\<lparr>calls := [DeletePod ''podA'' ''nsA'']\<rparr>)"
proof -
  have h: "TaskIDToPod world5 5 = Some \<lparr>Name = ''podA'', Namespace = ''nsA''\<rparr>"
    by (simp add: world5_def podA_def)
  have c: "calls world5 = []" by (simp add: world5_def)
  show ?thesis using h preempt_or_migrate_removes_once [OF h, of "''r1''"] by (simp add: c)
qed

section \<open>The registry is only read\<close>

text \<open>
  C9. For every delta, every batch, every run of iterations of the loop and every
  world, the two maps TaskIDToPod and ResIDToNode are the same after the dispatch as
  before, whether the process goes on or ends.
\<close>

theorem dispatch_keeps_registry:
  "TaskIDToPod (world_of (schedule_delta w d)) = TaskIDToPod w
   \<and> ResIDToNode (world_of (schedule_delta w d)) = ResIDToNode w
   \<and> TaskIDToPod (world_of (schedule_deltas w ds)) = TaskIDToPod w
   \<and> ResIDToNode (world_of (schedule_deltas w ds)) = ResIDToNode w
   \<and> TaskIDToPod (world_of (schedule w batches)) = TaskIDToPod w
   \<and> ResIDToNode (world_of (schedule w batches)) = ResIDToNode w"
  using schedule_delta_registry [of w d] schedule_deltas_registry [of w ds]
    schedule_registry [of w batches]
  by simp

section \<open>PREEMPT and MIGRATE share one branch\<close>

text \<open>
  C10. For every delta and every world, the delta taken as a PREEMPT and the same
  delta taken as a MIGRATE have the same outcome: the same lookup of the task, the same
  fatal message when the pairing is missing, the same single DeletePod call.
\<close>

theorem preempt_same_as_migrate:
  "schedule_delta w (d\<lparr>Type := SchedulingDelta_PREEMPT\<rparr>)
     = schedule_delta w (d\<lparr>Type := SchedulingDelta_MIGRATE\<rparr>)
   \<and> schedule_delta w (d\<lparr>Type := SchedulingDelta_PREEMPT\<rparr>) = preempt_or_migrate w d
   \<and> schedule_delta w (d\<lparr>Type := SchedulingDelta_MIGRATE\<rparr>) = preempt_or_migrate w d"
  by (simp add: kinds schedule_delta_def preempt_or_migrate_def split: option.splits)

section \<open>Facts about the polling\<close>

lemma condition_no_error: "snd (condition check n) = None"
  by (simp add: condition_def Let_def)

lemma condition_ok: "fst (condition check n) = fst (check n)"
  by (simp add: condition_def Let_def)



lemma poll_from_never:
  assumes "\<And>k. \<not> fst (cond k)" and "\<And>k. snd (cond k) = None" and "0 < interval"
  shows "fst (poll_from interval timeout cond n waited) = Some ErrWaitTimeout
         \<and> timeout < fst (snd (poll_from interval timeout cond n waited))
         \<and> fst (snd (poll_from interval timeout cond n waited)) \<le> max waited timeout + interval"
  using assms
proof (induction interval timeout cond n waited rule: poll_from.induct)
  case (1 interval timeout cond n waited)
  show ?case
  proof (cases "timeout < waited + interval")
    case True
    with 1(2-4) show ?thesis by (subst (1 2 3) poll_from.simps) simp
  next
    case False
    have step: "poll_from interval timeout cond n waited
                  = poll_from interval timeout cond (Suc n) (waited + interval)"
      using False 1(2-4) by (subst poll_from.simps) simp
    have "0 \<noteq> interval" using 1(4) by simp
    from 1(1) [OF 1(3) _ _ False 1(2) 1(3) 1(4)] 1(2) 1(4)
    have ih: "fst (poll_from interval timeout cond (Suc n) (waited + interval)) = Some ErrWaitTimeout
         \<and> timeout < fst (snd (poll_from interval timeout cond (Suc n) (waited + interval)))
         \<and> fst (snd (poll_from interval timeout cond (Suc n) (waited + interval)))
              \<le> max (waited + interval) timeout + interval"
      by simp
    with False show ?thesis by (simp add: step max_def)
  qed
qed

lemma gate_never:
  assumes "\<And>n. \<not> fst (check n)" and "0 < interval"
  shows "isl (WaitUntilReady timeout interval check)
         \<and> fst (projl (WaitUntilReady timeout interval check)) = TimedOutWaiting ErrWaitTimeout
         \<and> timeout < waited_of (WaitUntilReady timeout interval check)
         \<and> waited_of (WaitUntilReady timeout interval check) \<le> timeout + interval"
proof -
  let ?r = "poll_from interval timeout (condition check) 0 0"
  have a: "\<And>k. \<not> fst (condition check k)" using assms(1) by (simp add: condition_ok)
  have b: "\<And>k. snd (condition check k) = None" by (rule condition_no_error)
  note p = poll_from_never [where cond = "condition check" and interval = interval
      and timeout = timeout and n = 0 and waited = 0, OF a b assms(2)]
  obtain err waited n where r: "?r = (err, waited, n)" by (cases ?r)
  with p have "err = Some ErrWaitTimeout" "timeout < waited" "waited \<le> timeout + interval"
    by simp_all
  with r show ?thesis
    by (simp add: WaitUntilReady_def PollImmediate_def gate_result_def waited_of_def)
qed

lemma gate_fixed: "WaitForFirmamentService check = WaitUntilReady (10 * Minute) (2 * Second) check"
  by (simp add: WaitForFirmamentService_def WaitUntilReady_def)

section \<open>A probe that succeeds at once\<close>

text \<open>
  C6. For every probe whose first invocation answers true, WaitForFirmamentService
  returns with no time waited and one invocation of the probe.
\<close>

theorem ready_on_first_probe:
  fixes check :: probe
  assumes "fst (check 0)"
  shows "WaitForFirmamentService check = Inr (0, 1)"
  using assms
  by (simp add: WaitForFirmamentService_def PollImmediate_def gate_result_def
      poll_from.simps [of _ _ _ 0 0] condition_def)

theorem ready_on_first_probe_witness:
  "fst (ready_at_once 0) \<and> WaitForFirmamentService ready_at_once = Inr (0, 1)"
proof -
  have h: "fst (ready_at_once 0)" by (simp add: ready_at_once_def)
  show ?thesis using h ready_on_first_probe [of ready_at_once] by simp
qed

section \<open>A probe that never succeeds\<close>

text \<open>
  C7, as the claim states it, has the readiness timeout and the poll interval
  configured at process start. WaitForFirmamentService takes neither: it passes the
  literals 2 seconds and 10 minutes. Against a gate configured with a timeout of 20
  minutes, which reports the timeout after more than 20 minutes, the code reports it
  before 20 minutes have passed.
\<close>

theorem timeout_not_configured_counterexample:
  "isl (WaitForFirmamentService never_ready)
   \<and> waited_of (WaitForFirmamentService never_ready) < 20 * Minute
   \<and> 20 * Minute < waited_of (WaitUntilReady (20 * Minute) (2 * Second) never_ready)
   \<and> WaitForFirmamentService never_ready
       \<noteq> WaitUntilReady (20 * Minute) (2 * Second) never_ready"
proof -
  have nr: "\<And>n. \<not> fst (never_ready n)" by (simp add: never_ready_def)
  have pos: "0 < 2 * Second" by (simp add: Second_def)
  note code = gate_never [where check = never_ready and interval = "2 * Second"
      and timeout = "10 * Minute", OF nr pos]
  note spec = gate_never [where check = never_ready and interval = "2 * Second"
      and timeout = "20 * Minute", OF nr pos]
  have lt: "10 * Minute + 2 * Second < 20 * Minute" by (simp add: Minute_def Second_def)
  have a: "isl (WaitForFirmamentService never_ready)" using code by (simp add: gate_fixed)
  have b: "waited_of (WaitForFirmamentService never_ready) < 20 * Minute"
    using code lt by (simp add: gate_fixed)
  have c: "20 * Minute < waited_of (WaitUntilReady (20 * Minute) (2 * Second) never_ready)"
    using spec by simp
  from b c have "waited_of (WaitForFirmamentService never_ready)
      \<noteq> waited_of (WaitUntilReady (20 * Minute) (2 * Second) never_ready)" by simp
  then have d: "WaitForFirmamentService never_ready
       \<noteq> WaitUntilReady (20 * Minute) (2 * Second) never_ready" by auto
  from a b c d show ?thesis by simp
qed

text \<open>
  C7, amended. The readiness timeout, 10 minutes, and the poll interval, 2 seconds, are
  fixed in the code; for every probe that always answers false, WaitForFirmamentService
  ends the process with the message "Timed-out waiting for firmament service" only
  after more than 10 minutes have been waited.
\<close>

theorem timeout_after_ten_minutes:
  assumes "\<forall>n. \<not> fst (check n)"
  shows "WaitForFirmamentService check = WaitUntilReady (10 * Minute) (2 * Second) check
         \<and> isl (WaitForFirmamentService check)
         \<and> fst (projl (WaitForFirmamentService check)) = TimedOutWaiting ErrWaitTimeout
         \<and> 10 * Minute < waited_of (WaitForFirmamentService check)"
proof -
  have nr: "\<And>n. \<not> fst (check n)" using assms by simp
  have pos: "0 < 2 * Second" by (simp add: Second_def)
  from gate_never [where check = check and interval = "2 * Second"
      and timeout = "10 * Minute", OF nr pos]
  show ?thesis by (simp add: gate_fixed)
qed

theorem timeout_after_ten_minutes_witness:
  "(\<forall>n. \<not> fst (never_ready n))
   \<and> isl (WaitForFirmamentService never_ready)
   \<and> 10 * Minute < waited_of (WaitForFirmamentService never_ready)"
proof -
  have h: "\<forall>n. \<not> fst (never_ready n)" by (simp add: never_ready_def)
  note res = timeout_after_ten_minutes [OF h]
  have a: "isl (WaitForFirmamentService never_ready)"
    by (rule conjunct1 [OF conjunct2 [OF res]])
  have b: "10 * Minute < waited_of (WaitForFirmamentService never_ready)"
    by (rule conjunct2 [OF conjunct2 [OF conjunct2 [OF res]]])
  show ?thesis using h a b by simp
qed

section \<open>A probe that fails with a transport error\<close>




end
